theory Spec2Isabelle
  imports Complex_Main "HOL-Library.Sublist"
begin

section \<open>Python numbers\<close>

text \<open>
  The backend computes with three kinds of number.
  \<^item> \<open>int\<close>: unbounded, modelled by \<^typ>\<open>int\<close>.
  \<^item> \<open>decimal.Decimal\<close>: a decimal fraction, modelled by its exact value in \<^typ>\<open>rat\<close>.
    Sums and products of the amounts that occur stay far below the 28 significant digits
    of the default context, so they are exact; the one division
    (\<open>weighted_score_sum / total_price\<close>) is taken exact as well, which agrees with the
    28-digit quotient after \<open>quantize(Decimal("1"))\<close> for totals below \<open>10^24\<close>.
    \<open>quantize\<close> rounds with the context's default mode, \<open>ROUND_HALF_EVEN\<close>.
  \<^item> \<open>float\<close>: an IEEE-754 binary64 number. A finite float is represented by the decimal
    that \<open>str\<close>/\<open>repr\<close> prints for it (the shortest decimal that reads back as the same
    float). With this representation \<open>Decimal(str(x))\<close> is the identity, a float literal
    of a few digits is the decimal written, and comparisons of floats are comparisons of
    their decimals. Float arithmetic converts to the binary value (\<open>double\<close>), rounds
    the exact result to 53 significant bits, ties to even, and prints it again
    (\<open>float_repr\<close>). Infinities, NaN and subnormal numbers are outside the model.
\<close>

definition round_half_even :: "rat \<Rightarrow> int" where
  "round_half_even x =
     (let f = \<lfloor>x\<rfloor>; d = x - of_int f
      in if d < 1 / 2 then f else if 1 / 2 < d then f + 1 else if even f then f else f + 1)"

text \<open>\<open>x.quantize(Decimal(e))\<close> for a power of ten \<open>e\<close>: the multiple of \<open>e\<close> nearest to \<open>x\<close>.\<close>

definition quantize :: "rat \<Rightarrow> rat \<Rightarrow> rat" where
  "quantize e x = of_int (round_half_even (x / e)) * e"

text \<open>
  Rounding to 53 significant bits: scaling by two until the value lies in
  \<open>[2^52, 2^53)\<close>, where the representable numbers are the integers. The first argument
  bounds the number of scaling steps; 1200 covers the exponent range of binary64.
\<close>

fun round_sig53 :: "nat \<Rightarrow> rat \<Rightarrow> rat" where
  "round_sig53 0 x = x"
| "round_sig53 (Suc n) x =
     (if 2 ^ 53 \<le> \<bar>x\<bar> then 2 * round_sig53 n (x / 2)
      else if \<bar>x\<bar> < 2 ^ 52 then round_sig53 n (2 * x) / 2
      else of_int (round_half_even x))"

definition double :: "rat \<Rightarrow> rat" where
  "double x = (if x = 0 then 0 else round_sig53 1200 x)"

text \<open>Rounding to \<open>d\<close> significant decimal digits, in the same manner.\<close>

fun round_digits :: "nat \<Rightarrow> nat \<Rightarrow> rat \<Rightarrow> rat" where
  "round_digits 0 d x = x"
| "round_digits (Suc n) d x =
     (if 10 ^ d \<le> \<bar>x\<bar> then 10 * round_digits n d (x / 10)
      else if \<bar>x\<bar> < 10 ^ (d - 1) then round_digits n d (10 * x) / 10
      else of_int (round_half_even x))"

text \<open>
  \<open>repr\<close> of a float: the nearest decimal of \<open>d\<close> digits, for the least \<open>d\<close> from 1 to 17
  at which it reads back as the same float.
\<close>

fun shortest_repr :: "nat \<Rightarrow> nat \<Rightarrow> rat \<Rightarrow> rat" where
  "shortest_repr 0 d x = round_digits 400 d x"
| "shortest_repr (Suc n) d x =
     (if double (round_digits 400 d x) = x then round_digits 400 d x
      else shortest_repr n (Suc d) x)"

definition float_repr :: "rat \<Rightarrow> rat" where
  "float_repr x = (if x = 0 then 0 else shortest_repr 16 1 x)"

text \<open>The float operations \<open>+\<close>, \<open>-\<close>, \<open>*\<close>, \<open>/\<close> on printed decimals.\<close>

definition float_add :: "rat \<Rightarrow> rat \<Rightarrow> rat" where
  "float_add a b = float_repr (double (double a + double b))"

definition float_sub :: "rat \<Rightarrow> rat \<Rightarrow> rat" where
  "float_sub a b = float_repr (double (double a - double b))"

definition float_mul :: "rat \<Rightarrow> rat \<Rightarrow> rat" where
  "float_mul a b = float_repr (double (double a * double b))"

definition float_div :: "rat \<Rightarrow> rat \<Rightarrow> rat" where
  "float_div a b = float_repr (double (double a / double b))"

text \<open>\<open>float(d)\<close> of a decimal: the float nearest to it, as printed.\<close>

definition to_float :: "rat \<Rightarrow> rat" where
  "to_float d = float_repr (double d)"

text \<open>
  \<open>int(x)\<close> truncates towards zero. \<open>int(a / b)\<close> for an int \<open>a\<close> and a length \<open>b\<close>
  truncates the binary value of the correctly rounded quotient.
\<close>

definition py_int :: "rat \<Rightarrow> int" where
  "py_int x = (if 0 \<le> x then \<lfloor>x\<rfloor> else \<lceil>x\<rceil>)"

definition int_truediv :: "int \<Rightarrow> nat \<Rightarrow> int" where
  "int_truediv a b = py_int (double (of_int a / of_nat b))"

section \<open>Eco scoring (\<open>services/eco_scoring.py\<close>)\<close>

text \<open>\<open>score_from_co2e_per_dollar\<close>: kgCO2e per dollar to an eco score; \<open>None\<close> is neutral.\<close>

definition score_from_co2e_per_dollar :: "rat option \<Rightarrow> int" where
  "score_from_co2e_per_dollar co2e_per_usd =
     (case co2e_per_usd of
        None \<Rightarrow> 5
      | Some x \<Rightarrow>
          if x \<le> 5 / 100 then 10
          else if x \<le> 10 / 100 then 9
          else if x \<le> 20 / 100 then (if x \<le> 15 / 100 then 8 else 7)
          else if x \<le> 40 / 100 then (if x \<le> 30 / 100 then 6 else 5)
          else if x \<le> 80 / 100 then (if x \<le> 60 / 100 then 4 else 3)
          else (if x \<le> 12 / 10 then 2 else if x \<le> 2 then 1 else 0))"

text \<open>
  \<open>map_score_to_multiplier\<close>: the bonus multiplier, a float computed as
  \<open>0.15 + (score / 10.0) * (5.0 - 0.15)\<close> after clamping the score.
\<close>

definition map_score_to_multiplier :: "int \<Rightarrow> rat" where
  "map_score_to_multiplier score0 =
     (let score = max 0 (min 10 score0)
      in if score = 0 then 15 / 100
         else float_add (15 / 100)
                (float_mul (float_div (of_int score) 10) (float_sub 5 (15 / 100))))"

text \<open>
  \<open>compute_cashback\<close>: base 1 percent plus the bonus; \<open>Decimal(str(amount))\<close> and
  \<open>Decimal(str(m))\<close> are the printed decimals of the arguments.
\<close>

definition compute_cashback :: "rat \<Rightarrow> int option \<Rightarrow> rat" where
  "compute_cashback amount score =
     (let amt = amount;
          base = amt * (1 / 100)
      in case score of
           None \<Rightarrow> quantize (1 / 100) base
         | Some s \<Rightarrow>
             let m = map_score_to_multiplier s;
                 bonus = amt * (1 / 100) * m;
                 total = base + bonus
             in quantize (1 / 100) total)"

section \<open>Python strings\<close>

text \<open>
  A \<open>str\<close> is a list of characters; a character is a code point below 256. The
  character classes below are those of \<open>str.isspace\<close>, \<open>str.lower\<close>, the regular
  expression classes \<open>\s\<close> and \<open>\d\<close>, and the line boundaries of \<open>str.splitlines\<close>,
  restricted to that range.
\<close>

definition code :: "char \<Rightarrow> nat" where
  "code c = of_char c"

definition is_space :: "char \<Rightarrow> bool" where
  "is_space c = (code c \<in> {9, 10, 11, 12, 13, 28, 29, 30, 31, 32, 133, 160})"

definition is_digit :: "char \<Rightarrow> bool" where
  "is_digit c = (48 \<le> code c \<and> code c \<le> 57)"

definition is_linebreak :: "char \<Rightarrow> bool" where
  "is_linebreak c = (code c \<in> {10, 11, 12, 13, 28, 29, 30, 133})"

definition lower_char :: "char \<Rightarrow> char" where
  "lower_char c =
     (if (65 \<le> code c \<and> code c \<le> 90) \<or> (192 \<le> code c \<and> code c \<le> 222 \<and> code c \<noteq> 215)
      then char_of (code c + 32) else c)"

definition lower :: "string \<Rightarrow> string" where
  "lower s = map lower_char s"

text \<open>\<open>key in n\<close> for strings: \<open>key\<close> occurs in \<open>n\<close> as a contiguous run.\<close>

fun contains :: "string \<Rightarrow> string \<Rightarrow> bool" where
  "contains key [] = (key = [])"
| "contains key (c # cs) = (prefix key (c # cs) \<or> contains key cs)"

text \<open>\<open>s.strip(chars)\<close> and \<open>s.strip()\<close>.\<close>

definition strip_with :: "(char \<Rightarrow> bool) \<Rightarrow> string \<Rightarrow> string" where
  "strip_with P s = rev (dropWhile P (rev (dropWhile P s)))"

definition strip :: "string \<Rightarrow> string" where
  "strip s = strip_with is_space s"

text \<open>
  \<open>s.splitlines()\<close>: the lines without their boundaries; \<open>\r\n\<close> is one boundary and
  a boundary at the very end opens no further line. The first argument is the line read
  so far, in reverse.
\<close>

fun splitlines_from :: "string \<Rightarrow> string \<Rightarrow> string list" where
  "splitlines_from cur [] = (if cur = [] then [] else [rev cur])"
| "splitlines_from cur (c # cs) =
     (if is_linebreak c then
        (case cs of
           d # ds \<Rightarrow>
             if code c = 13 \<and> code d = 10 then rev cur # splitlines_from [] ds
             else rev cur # splitlines_from [] cs
         | [] \<Rightarrow> rev cur # splitlines_from [] cs)
      else splitlines_from (c # cur) cs)"

definition splitlines :: "string \<Rightarrow> string list" where
  "splitlines s = splitlines_from [] s"

text \<open>\<open>float(s)\<close> for a numeral \<open>digits.digits\<close>: the float nearest to its decimal value.\<close>

definition digits_value :: "string \<Rightarrow> nat" where
  "digits_value ds = foldl (\<lambda>a c. 10 * a + (code c - 48)) 0 ds"

definition float_of_numeral :: "string \<Rightarrow> string \<Rightarrow> rat" where
  "float_of_numeral ds fr =
     to_float (of_nat (digits_value ds) + of_nat (digits_value fr) / 10 ^ length fr)"

section \<open>Configuration (\<open>core/config.py\<close>)\<close>

text \<open>
  Modelled from the spec: the settings object returned by \<open>get_settings()\<close>, whose module
  is not among the sources. The specification names the switches and one credential per
  adapter; the names of the fields are those the adapters read. A credential that is
  \<open>None\<close> or empty counts as missing.
\<close>

record settings =
  use_real_ocr :: bool
  google_vision_api_key :: "string option"
  use_real_climatiq :: bool
  climatiq_api_key :: "string option"

definition falsy_key :: "string option \<Rightarrow> bool" where
  "falsy_key k = (case k of None \<Rightarrow> True | Some s \<Rightarrow> s = [])"

section \<open>Fallback factors (\<open>services/integrations/item_category_map.py\<close>)\<close>

definition FALLBACK_KG_CO2E_PER_USD :: "(string \<times> rat) list" where
  "FALLBACK_KG_CO2E_PER_USD =
     [(''organic'', 5 / 100),
      (''kale'', 6 / 100),
      (''banana'', 8 / 100),
      (''coffee'', 25 / 100),
      (''beef'', 5),
      (''chicken'', 18 / 10),
      (''pork'', 3),
      (''rice'', 4 / 10),
      (''bread'', 3 / 10),
      (''salad'', 2 / 10),
      (''grocery'', 3 / 10),
      (''shirt'', 12 / 10),
      (''electronics'', 6 / 10),
      (''toy'', 5 / 10),
      (''book'', 2 / 10)]"

definition DEFAULT_KG_CO2E_PER_USD :: rat where
  "DEFAULT_KG_CO2E_PER_USD = 5 / 10"

text \<open>The loop of \<open>lookup_kg_co2e_per_usd\<close> over the table, for the lowered name \<open>n\<close>.\<close>

fun lookup_in :: "(string \<times> rat) list \<Rightarrow> string \<Rightarrow> rat" where
  "lookup_in [] n = DEFAULT_KG_CO2E_PER_USD"
| "lookup_in ((key, val) # rest) n = (if contains key n then val else lookup_in rest n)"

definition lookup_kg_co2e_per_usd :: "string \<Rightarrow> rat" where
  "lookup_kg_co2e_per_usd name = (let n = lower name in lookup_in FALLBACK_KG_CO2E_PER_USD n)"

section \<open>Footprint estimation (\<open>services/integrations/climatiq_client.py\<close>)\<close>

text \<open>
  \<open>_mock_estimate\<close>: the factor times the price, a product of decimals turned into a
  float; a missing price counts as \<open>1.0\<close>. The quantity is not used.
\<close>

definition mock_estimate :: "string \<Rightarrow> rat option \<Rightarrow> int option \<Rightarrow> rat" where
  "mock_estimate name price qty =
     (let factor = lookup_kg_co2e_per_usd name;
          price1 = (case price of None \<Rightarrow> 1 | Some p \<Rightarrow> p)
      in to_float (factor * price1))"

text \<open>
  \<open>estimate_item_footprint\<close>: without the real service, or without its key, the fallback;
  with them, the body of the \<open>try\<close> is the fallback as well.
\<close>

definition estimate_item_footprint :: "settings \<Rightarrow> string \<Rightarrow> rat option \<Rightarrow> int option \<Rightarrow> rat" where
  "estimate_item_footprint cfg name price qty =
     (if \<not> use_real_climatiq cfg \<or> falsy_key (climatiq_api_key cfg)
      then mock_estimate name price qty
      else mock_estimate name price qty)"

section \<open>Receipt text extraction (\<open>services/integrations/ocr_google_vision.py\<close>)\<close>

text \<open>\<open>ParsedItem\<close>: the dictionaries the extractor returns always carry the three keys.\<close>

record parsed_item =
  name :: string
  price :: "rat option"
  qty :: "int option"

definition mock_parse :: "string \<Rightarrow> parsed_item list" where
  "mock_parse image_bytes = [\<lparr>name = ''Unknown Item'', price = None, qty = None\<rparr>]"

text \<open>
  The recognition service is an adapter: what \<open>requests.post\<close> does for a key and an
  image is a parameter of the model. It raises, or it answers with a status code and a
  body, which is JSON or not.
\<close>

datatype json =
  JNull | JBool bool | JNum rat | JStr string | JArr "json list" | JObj "(string \<times> json) list"

datatype py_exception =
  ConnectionError | HTTPError | JSONDecodeError | AttributeError | IndexError | KeyError
  | TypeError

record http_response =
  status_code :: nat
  body :: "json option"

type_synonym vision_adapter = "string \<Rightarrow> string \<Rightarrow> py_exception + http_response"

text \<open>\<open>resp.raise_for_status()\<close> and \<open>resp.json()\<close>.\<close>

definition raise_for_status :: "http_response \<Rightarrow> py_exception + unit" where
  "raise_for_status resp =
     (if 400 \<le> status_code resp \<and> status_code resp < 600 then Inl HTTPError else Inr ())"

definition response_json :: "http_response \<Rightarrow> py_exception + json" where
  "response_json resp = (case body resp of None \<Rightarrow> Inl JSONDecodeError | Some j \<Rightarrow> Inr j)"

text \<open>\<open>d.get(key, default)\<close>, \<open>x[0]\<close> and truth of a decoded JSON value.\<close>

definition py_get :: "json \<Rightarrow> string \<Rightarrow> json \<Rightarrow> py_exception + json" where
  "py_get d key dflt =
     (case d of
        JObj kvs \<Rightarrow> Inr (case map_of kvs key of Some v \<Rightarrow> v | None \<Rightarrow> dflt)
      | _ \<Rightarrow> Inl AttributeError)"

definition py_first :: "json \<Rightarrow> py_exception + json" where
  "py_first x =
     (case x of
        JArr xs \<Rightarrow> (case xs of [] \<Rightarrow> Inl IndexError | y # _ \<Rightarrow> Inr y)
      | JStr s \<Rightarrow> (case s of [] \<Rightarrow> Inl IndexError | c # _ \<Rightarrow> Inr (JStr [c]))
      | JObj kvs \<Rightarrow> Inl KeyError
      | _ \<Rightarrow> Inl TypeError)"

definition truthy :: "json \<Rightarrow> bool" where
  "truthy x =
     (case x of
        JNull \<Rightarrow> False
      | JBool b \<Rightarrow> b
      | JNum n \<Rightarrow> n \<noteq> 0
      | JStr s \<Rightarrow> s \<noteq> []
      | JArr xs \<Rightarrow> xs \<noteq> []
      | JObj kvs \<Rightarrow> kvs \<noteq> [])"

text \<open>
  The regular expression \<open>(?P<name>.*?)[\s\t]+\$?(?P<price>\d+\.\d{1,2})$\<close>.
  \<open>price_tail\<close> matches \<open>[\s\t]+\$?(\d+\.\d{1,2})$\<close> against a whole string and gives
  the digits before and after the point: the classes are disjoint, so each greedy
  repetition takes the longest run. \<open>re_search\<close> finds the shortest \<open>name\<close> after which
  the tail matches; a line has no newline, so \<open>.\<close> matches every character and the
  search succeeds from the first position or nowhere.
\<close>

definition price_tail :: "string \<Rightarrow> (string \<times> string) option" where
  "price_tail s =
     (let ws = takeWhile is_space s;
          r1 = dropWhile is_space s;
          r2 = (case r1 of [] \<Rightarrow> r1 | c # cs \<Rightarrow> if c = CHR ''$'' then cs else r1);
          ds = takeWhile is_digit r2;
          r3 = dropWhile is_digit r2
      in if ws = [] \<or> ds = [] then None
         else (case r3 of
                 [] \<Rightarrow> None
               | c # fr \<Rightarrow>
                   if c = CHR ''.'' \<and> (length fr = 1 \<or> length fr = 2) \<and> list_all is_digit fr
                   then Some (ds, fr) else None))"

fun re_search :: "string \<Rightarrow> (string \<times> string \<times> string) option" where
  "re_search [] = (case price_tail [] of None \<Rightarrow> None | Some p \<Rightarrow> Some ([], p))"
| "re_search (c # cs) =
     (case price_tail (c # cs) of
        Some p \<Rightarrow> Some ([], p)
      | None \<Rightarrow> (case re_search cs of None \<Rightarrow> None | Some (n, p) \<Rightarrow> Some (c # n, p)))"

text \<open>The body of the loop over the lines: the item a line gives, if any.\<close>

definition parse_line :: "string \<Rightarrow> parsed_item option" where
  "parse_line raw_line =
     (let line = strip raw_line
      in if line = [] \<or> length line < 2 then None
         else (case re_search line of
                 None \<Rightarrow> None
               | Some (n, ds, fr) \<Rightarrow>
                   let name' = strip_with (\<lambda>c. c \<in> set ''-: .'' \<or> code c = 9) n;
                       price' = Some (float_of_numeral ds fr)
                   in if name' \<noteq> [] then Some \<lparr>name = name', price = price', qty = None\<rparr>
                      else None))"

definition parse_lines :: "string list \<Rightarrow> parsed_item list" where
  "parse_lines ls = List.map_filter parse_line ls"

text \<open>
  The body of the \<open>try\<close> in \<open>parse_receipt\<close>: every step that can raise returns a sum,
  and the first exception ends the body.
\<close>

definition parse_response :: "string \<Rightarrow> py_exception + http_response \<Rightarrow> py_exception + parsed_item list" where
  "parse_response image_bytes posted =
     (case posted of
        Inl e \<Rightarrow> Inl e
      | Inr resp \<Rightarrow>
     (case raise_for_status resp of
        Inl e \<Rightarrow> Inl e
      | Inr _ \<Rightarrow>
     (case response_json resp of
        Inl e \<Rightarrow> Inl e
      | Inr data \<Rightarrow>
     (case py_get data ''responses'' (JArr [JObj []]) of
        Inl e \<Rightarrow> Inl e
      | Inr rs \<Rightarrow>
     (case py_first rs of
        Inl e \<Rightarrow> Inl e
      | Inr r \<Rightarrow>
     (case py_get r ''fullTextAnnotation'' (JObj []) of
        Inl e \<Rightarrow> Inl e
      | Inr ann \<Rightarrow>
     (case py_get ann ''text'' (JStr []) of
        Inl e \<Rightarrow> Inl e
      | Inr text \<Rightarrow>
          if \<not> truthy text then Inr (mock_parse image_bytes)
          else (case text of
                  JStr s \<Rightarrow>
                    let items = parse_lines (splitlines s)
                    in Inr (if items \<noteq> [] then items else mock_parse image_bytes)
                | _ \<Rightarrow> Inl AttributeError))))))))"

text \<open>\<open>parse_receipt\<close>: the fallback without the real service or its key, and on any exception.\<close>

definition parse_receipt :: "settings \<Rightarrow> vision_adapter \<Rightarrow> string \<Rightarrow> parsed_item list" where
  "parse_receipt cfg post image_bytes =
     (if \<not> use_real_ocr cfg \<or> falsy_key (google_vision_api_key cfg) then mock_parse image_bytes
      else (case parse_response image_bytes
                   (post (the (google_vision_api_key cfg)) image_bytes) of
              Inr items \<Rightarrow> items
            | Inl e \<Rightarrow> mock_parse image_bytes))"

text \<open>
  The sentinel item of the fallback, and the body of an answer of the recognition service
  that carries the recognised text \<open>s\<close>.
\<close>

definition unknown_item :: parsed_item where
  "unknown_item = \<lparr>name = ''Unknown Item'', price = None, qty = None\<rparr>"

definition vision_body :: "string \<Rightarrow> json" where
  "vision_body s =
     JObj [(''responses'', JArr [JObj [(''fullTextAnnotation'', JObj [(''text'', JStr s)])]])]"

section \<open>Receipt upload (\<open>api/routes/receipts.py\<close>)\<close>

text \<open>
  Modelled from the spec: the stored entities \<open>Transaction\<close> and \<open>ReceiptItem\<close> and the
  database session, whose modules are not among the sources. The columns are those the
  handler reads and writes. A query sees the rows the session has added before it,
  \<open>get("item_score")\<close> on a stored row reads its column, and \<open>commit\<close> makes the changes
  of the session the stored state; a request that raises leaves the stored state as it
  was. The identifiers arrive validated as positive by the form declaration.
\<close>

record transaction =
  tx_id :: int
  user_id :: int
  amount :: rat
  eco_score :: "int option"
  needs_receipt :: bool
  cashback_usd :: "rat option"

record receipt_item =
  transaction_id :: int
  item_name :: string
  item_price :: "rat option"
  item_qty :: "int option"
  kg_co2e :: "rat option"
  item_score :: "int option"

record db =
  transactions :: "transaction list"
  receipt_items :: "receipt_item list"

datatype http_exception = NotFound | BadRequest

record upload_result =
  res_transaction_id :: int
  res_eco_score :: int
  res_cashback_usd :: rat
  res_items :: nat

text \<open>\<open>price and price > 0\<close> for an optional float.\<close>

definition positive :: "rat option \<Rightarrow> bool" where
  "positive pr = (case pr of None \<Rightarrow> False | Some p \<Rightarrow> p \<noteq> 0 \<and> 0 < p)"

text \<open>
  The first part of the loop body: the footprint, the item score and the row added to
  the session.
\<close>

definition score_item :: "settings \<Rightarrow> int \<Rightarrow> parsed_item \<Rightarrow> receipt_item \<times> int" where
  "score_item cfg tid it =
     (let nm = (if name it = [] then ''Unknown'' else name it);
          pr = price it;
          q = qty it;
          kg = estimate_item_footprint cfg nm pr q;
          sc = (if positive pr
                then score_from_co2e_per_dollar (Some (float_div kg (the pr)))
                else 5)
      in (\<lparr>transaction_id = tid, item_name = nm, item_price = pr, item_qty = q,
            kg_co2e = Some kg, item_score = Some sc\<rparr>, sc))"

text \<open>The second part: \<open>total_price\<close> and \<open>weighted_score_sum\<close>.\<close>

definition accumulate :: "rat \<times> rat \<Rightarrow> rat option \<Rightarrow> int \<Rightarrow> rat \<times> rat" where
  "accumulate totals pr sc =
     (case totals of
        (total_price, weighted_score_sum) \<Rightarrow>
          if positive pr
          then (total_price + the pr, weighted_score_sum + the pr * of_int sc)
          else (total_price, weighted_score_sum))"

text \<open>The loop over the items; the state is the rows added so far and the two sums.\<close>

fun process_items ::
  "settings \<Rightarrow> int \<Rightarrow> parsed_item list \<Rightarrow> receipt_item list \<times> rat \<times> rat
     \<Rightarrow> receipt_item list \<times> rat \<times> rat" where
  "process_items cfg tid [] st = st"
| "process_items cfg tid (it # its) (added, totals) =
     (case score_item cfg tid it of
        (row, sc) \<Rightarrow> process_items cfg tid its (added @ [row], accumulate totals (price it) sc))"

text \<open>
  The transaction score before clamping: the weighted mean when a price was counted,
  else the mean of the scores read back from the rows of the transaction, else 5.
\<close>

definition tx_score_of :: "rat \<times> rat \<Rightarrow> int list \<Rightarrow> int" where
  "tx_score_of totals scores =
     (case totals of
        (total_price, weighted_score_sum) \<Rightarrow>
          if 0 < total_price then py_int (quantize 1 (weighted_score_sum / total_price))
          else if scores \<noteq> [] then int_truediv (sum_list scores) (length scores)
          else 5)"

definition stored_scores :: "int \<Rightarrow> receipt_item list \<Rightarrow> int list" where
  "stored_scores tid rows =
     List.map_filter item_score (filter (\<lambda>r. transaction_id r = tid) rows)"

text \<open>
  The handler. The extractor is a parameter here, so that the guard on its result can be
  stated for any extractor; \<open>upload_receipt\<close> below is the handler with \<open>parse_receipt\<close>.
  The result is the stored state after the request and the response or the HTTP error.
\<close>

definition upload_receipt_with ::
  "(string \<Rightarrow> parsed_item list) \<Rightarrow> settings \<Rightarrow> db \<Rightarrow> int \<Rightarrow> int \<Rightarrow> string
     \<Rightarrow> db \<times> (http_exception + upload_result)" where
  "upload_receipt_with parse cfg d uid tid content =
     (case find (\<lambda>t. tx_id t = tid \<and> user_id t = uid) (transactions d) of
        None \<Rightarrow> (d, Inl NotFound)
      | Some tx \<Rightarrow>
          let items = parse content
          in if items = [] then (d, Inl BadRequest)
             else
               let kept = filter (\<lambda>r. transaction_id r \<noteq> tx_id tx) (receipt_items d);
                   st = process_items cfg (tx_id tx) items ([], 0, 0);
                   rows = kept @ fst st;
                   tx_score = tx_score_of (snd st) (stored_scores (tx_id tx) rows);
                   score = max 0 (min 10 tx_score);
                   cashback = compute_cashback (amount tx) (Some score);
                   tx' = tx\<lparr>eco_score := Some score, needs_receipt := False,
                           cashback_usd := Some cashback\<rparr>
               in (\<lparr>transactions =
                       map (\<lambda>t. if tx_id t = tx_id tx then tx' else t) (transactions d),
                     receipt_items = rows\<rparr>,
                   Inr \<lparr>res_transaction_id = tx_id tx, res_eco_score = score,
                        res_cashback_usd = cashback, res_items = length items\<rparr>))"

definition upload_receipt ::
  "settings \<Rightarrow> vision_adapter \<Rightarrow> db \<Rightarrow> int \<Rightarrow> int \<Rightarrow> string
     \<Rightarrow> db \<times> (http_exception + upload_result)" where
  "upload_receipt cfg post d uid tid content =
     upload_receipt_with (parse_receipt cfg post) cfg d uid tid content"

section \<open>Notions of the specification\<close>



text \<open>
  The multiplier as \<open>str\<close> prints it for the eleven clamped scores, and the multiplier and
  the cashback of the specification: exact decimals, rounded half-up to cents.
\<close>

definition printed_multiplier :: "int \<Rightarrow> rat" where
  "printed_multiplier k =
     (if k \<le> 0 then 15 / 100
      else if k \<le> 1 then 635 / 1000
      else if k \<le> 2 then 11199999999999999 / 10 ^ 16
      else if k \<le> 3 then 16049999999999998 / 10 ^ 16
      else if k \<le> 4 then 209 / 100
      else if k \<le> 5 then 25749999999999997 / 10 ^ 16
      else if k \<le> 6 then 30599999999999996 / 10 ^ 16
      else if k \<le> 7 then 35449999999999995 / 10 ^ 16
      else if k \<le> 8 then 403 / 100
      else if k \<le> 9 then 4515000000000001 / 10 ^ 15
      else 5)"




section \<open>An example request\<close>

text \<open>
  Settings with the recognition service on, an adapter that answers with the text of two
  lines, and a stored state with one transaction of user 7, an item of an earlier upload
  for it and an item of another transaction.
\<close>

definition example_settings :: settings where
  "example_settings =
     \<lparr>use_real_ocr = True, google_vision_api_key = Some ''key'',
       use_real_climatiq = False, climatiq_api_key = None\<rparr>"

definition example_adapter :: vision_adapter where
  "example_adapter k i =
     Inr \<lparr>status_code = 200,
          body = Some (vision_body ''Coffee $4.50\<newline>Organic kale 0.35'')\<rparr>"

definition example_db :: db where
  "example_db =
     \<lparr>transactions =
        [\<lparr>tx_id = 1, user_id = 7, amount = 598 / 100, eco_score = Some 4,
           needs_receipt = True, cashback_usd = Some (18 / 100)\<rparr>],
      receipt_items =
        [\<lparr>transaction_id = 1, item_name = ''Tea'', item_price = Some 3, item_qty = None,
           kg_co2e = Some (3 / 2), item_score = Some 4\<rparr>,
         \<lparr>transaction_id = 2, item_name = ''Book'', item_price = Some 10, item_qty = None,
           kg_co2e = Some 2, item_score = Some 7\<rparr>]\<rparr>"

text \<open>The stored state after the upload of the example, and after a second upload
  for which the extractor falls back.\<close>

definition example_db_1 :: db where
  "example_db_1 =
     \<lparr>transactions =
        [\<lparr>tx_id = 1, user_id = 7, amount = 598 / 100, eco_score = Some 6,
           needs_receipt = False, cashback_usd = Some (24 / 100)\<rparr>],
      receipt_items =
        [\<lparr>transaction_id = 2, item_name = ''Book'', item_price = Some 10, item_qty = None,
           kg_co2e = Some 2, item_score = Some 7\<rparr>,
         \<lparr>transaction_id = 1, item_name = ''Coffee'', item_price = Some (9 / 2),
           item_qty = None, kg_co2e = Some (9 / 8), item_score = Some 6\<rparr>,
         \<lparr>transaction_id = 1, item_name = ''Organic kale'', item_price = Some (35 / 100),
           item_qty = None, kg_co2e = Some (7 / 400), item_score = Some 9\<rparr>]\<rparr>"

definition example_db_2 :: db where
  "example_db_2 =
     \<lparr>transactions =
        [\<lparr>tx_id = 1, user_id = 7, amount = 598 / 100, eco_score = Some 5,
           needs_receipt = False, cashback_usd = Some (21 / 100)\<rparr>],
      receipt_items =
        [\<lparr>transaction_id = 2, item_name = ''Book'', item_price = Some 10, item_qty = None,
           kg_co2e = Some 2, item_score = Some 7\<rparr>,
         \<lparr>transaction_id = 1, item_name = ''Unknown Item'', item_price = None,
           item_qty = None, kg_co2e = Some (1 / 2), item_score = Some 5\<rparr>]\<rparr>"

section \<open>Evaluating the roundings\<close>

lemma floor_rat_numeral [simp]:
  "\<lfloor>numeral a / numeral b :: rat\<rfloor> = numeral a div numeral b"
  using floor_divide_of_int_eq [of "numeral a" "numeral b", where ?'a = rat] by simp

lemma floor_rat_one_numeral [simp]:
  "\<lfloor>1 / numeral b :: rat\<rfloor> = 1 div numeral b"
  using floor_divide_of_int_eq [of 1 "numeral b", where ?'a = rat] by simp

text \<open>
  When \<open>k\<close> doublings bring \<open>x\<close> into \<open>[2^52, 2^53)\<close>, rounding to 53 bits is rounding
  \<open>x * 2^k\<close> to an integer.
\<close>

lemma round_sig53_scaled:
  "2 ^ 52 \<le> \<bar>x\<bar> * 2 ^ k \<Longrightarrow> \<bar>x\<bar> * 2 ^ k < 2 ^ 53 \<Longrightarrow> k < n \<Longrightarrow>
   round_sig53 n x = of_int (round_half_even (x * 2 ^ k)) / 2 ^ k"
proof (induction k arbitrary: n x)
  case 0
  then obtain m where "n = Suc m" by (cases n) auto
  with 0 show ?case by simp
next
  case (Suc k)
  then obtain m where n: "n = Suc m" and km: "k < m" by (cases n) auto
  from Suc.prems(2) have "\<bar>x\<bar> * 2 ^ k * 2 < 2 ^ 52 * 2" by (simp add: mult.assoc)
  then have a: "\<bar>x\<bar> * 2 ^ k < 2 ^ 52" by simp
  have "\<bar>x\<bar> * 1 \<le> \<bar>x\<bar> * 2 ^ k" by (intro mult_left_mono) simp_all
  with a have small: "\<bar>x\<bar> < 2 ^ 52" by simp
  have "round_sig53 m (2 * x) = of_int (round_half_even (2 * x * 2 ^ k)) / 2 ^ k"
    using Suc.prems km by (intro Suc.IH) (simp_all add: abs_mult mult.assoc mult.left_commute)
  with small n show ?case by (simp add: mult.assoc mult.left_commute)
qed

lemma double_scaled:
  "2 ^ 52 \<le> \<bar>x\<bar> * 2 ^ k \<Longrightarrow> \<bar>x\<bar> * 2 ^ k < 2 ^ 53 \<Longrightarrow> k < 1200 \<Longrightarrow>
   double x = of_int (round_half_even (x * 2 ^ k)) / 2 ^ k"
  using round_sig53_scaled [of x k 1200] by (auto simp: double_def)

lemma round_digits_scaled:
  "10 ^ (d - 1) \<le> \<bar>x\<bar> * 10 ^ k \<Longrightarrow> \<bar>x\<bar> * 10 ^ k < 10 ^ d \<Longrightarrow> k < n \<Longrightarrow> 0 < d \<Longrightarrow>
   round_digits n d x = of_int (round_half_even (x * 10 ^ k)) / 10 ^ k"
proof (induction k arbitrary: n x)
  case 0
  then obtain m where "n = Suc m" by (cases n) auto
  with 0 show ?case by simp
next
  case (Suc k)
  then obtain m where n: "n = Suc m" and km: "k < m" by (cases n) auto
  obtain e where d: "d = Suc e" using Suc.prems(4) by (cases d) auto
  from Suc.prems(2) d have "\<bar>x\<bar> * 10 ^ k * 10 < 10 ^ e * 10" by (simp add: mult.assoc)
  then have a: "\<bar>x\<bar> * 10 ^ k < 10 ^ e" by simp
  have "\<bar>x\<bar> * 1 \<le> \<bar>x\<bar> * 10 ^ k" by (intro mult_left_mono) simp_all
  with a have small: "\<bar>x\<bar> < 10 ^ (d - 1)" using d by simp
  then have small2: "\<not> 10 ^ d \<le> \<bar>x\<bar>" using d by (simp add: not_le)
  have "round_digits m d (10 * x) = of_int (round_half_even (10 * x * 10 ^ k)) / 10 ^ k"
    using Suc.prems km by (intro Suc.IH) (simp_all add: abs_mult mult.assoc mult.left_commute)
  with small small2 n show ?case by (simp add: mult.assoc mult.left_commute)
qed

text \<open>The same for a value whose leading digit stands \<open>j\<close> places after the point.\<close>

lemma round_digits_places:
  assumes "1 \<le> \<bar>x\<bar> * 10 ^ j" "\<bar>x\<bar> * 10 ^ j < 10" "0 < d" "d + j \<le> 400"
  shows "round_digits 400 d x =
    of_int (round_half_even (x * 10 ^ (d - 1 + j))) / 10 ^ (d - 1 + j)"
proof -
  obtain e where d: "d = Suc e" using assms(3) by (cases d) auto
  have "1 * 10 ^ e \<le> \<bar>x\<bar> * 10 ^ j * 10 ^ e" using assms(1) by (intro mult_right_mono) simp_all
  then have lo: "10 ^ (d - 1) \<le> \<bar>x\<bar> * 10 ^ (d - 1 + j)"
    using d by (simp add: power_add mult.assoc mult.commute)
  have "\<bar>x\<bar> * 10 ^ j * 10 ^ e < 10 * 10 ^ e"
    using assms(2) by (intro mult_strict_right_mono) simp_all
  then have hi: "\<bar>x\<bar> * 10 ^ (d - 1 + j) < 10 ^ d"
    using d by (simp add: power_add mult.assoc mult.commute)
  have "d - 1 + j < 400" using d assms(4) by simp
  from round_digits_scaled [OF lo hi this assms(3)] show ?thesis .
qed

text \<open>And for a value of \<open>a + 1\<close> digits before the point.\<close>

lemma round_digits_down:
  "10 ^ (d - 1) \<le> \<bar>x\<bar> / 10 ^ k \<Longrightarrow> \<bar>x\<bar> / 10 ^ k < 10 ^ d \<Longrightarrow> k < n \<Longrightarrow> 0 < d \<Longrightarrow>
   round_digits n d x = of_int (round_half_even (x / 10 ^ k)) * 10 ^ k"
proof (induction k arbitrary: n x)
  case 0
  then obtain m where "n = Suc m" by (cases n) auto
  with 0 show ?case by simp
next
  case (Suc k)
  then obtain m where n: "n = Suc m" and km: "k < m" by (cases n) auto
  obtain e where d: "d = Suc e" using Suc.prems(4) by (cases d) auto
  from Suc.prems(1) have "10 ^ (d - 1) * 10 ^ Suc k \<le> \<bar>x\<bar>"
    by (simp add: pos_le_divide_eq)
  then have "10 ^ (d - 1 + Suc k) \<le> \<bar>x\<bar>" by (simp only: power_add)
  moreover have "(10::rat) ^ d \<le> 10 ^ (d - 1 + Suc k)"
    using d by (intro power_increasing) simp_all
  ultimately have big: "10 ^ d \<le> \<bar>x\<bar>" by linarith
  have "round_digits m d (x / 10) = of_int (round_half_even (x / 10 / 10 ^ k)) * 10 ^ k"
    using Suc.prems km by (intro Suc.IH) (simp_all add: mult.commute)
  with big n show ?case by (simp add: mult.assoc mult.commute)
qed

lemma round_digits_long:
  assumes "10 ^ a \<le> \<bar>x\<bar>" "\<bar>x\<bar> < 10 * 10 ^ a" "a < d" "d \<le> 400"
  shows "round_digits 400 d x =
    of_int (round_half_even (x * 10 ^ (d - 1 - a))) / 10 ^ (d - 1 - a)"
proof -
  obtain e where d: "d = Suc (e + a)" using assms(3) by (metis less_iff_Suc_add add.commute)
  have "10 ^ a * 10 ^ e \<le> \<bar>x\<bar> * 10 ^ e" using assms(1) by (intro mult_right_mono) simp_all
  then have lo: "10 ^ (d - 1) \<le> \<bar>x\<bar> * 10 ^ (d - 1 - a)"
    using d by (simp add: power_add mult.commute)
  have "\<bar>x\<bar> * 10 ^ e < 10 * 10 ^ a * 10 ^ e"
    using assms(2) by (intro mult_strict_right_mono) simp_all
  then have hi: "\<bar>x\<bar> * 10 ^ (d - 1 - a) < 10 ^ d"
    using d by (simp add: power_add mult.assoc mult.commute)
  have "d - 1 - a < 400" "0 < d" using d assms(4) by simp_all
  from round_digits_scaled [OF lo hi this] show ?thesis .
qed

lemma round_digits_short:
  assumes "10 ^ a \<le> \<bar>x\<bar>" "\<bar>x\<bar> < 10 * 10 ^ a" "0 < d" "d \<le> a" "a < 400"
  shows "round_digits 400 d x =
    of_int (round_half_even (x / 10 ^ (a + 1 - d))) * 10 ^ (a + 1 - d)"
proof -
  obtain e where a: "a = d + e" using assms(4) by (metis le_iff_add)
  obtain f where d: "d = Suc f" using assms(3) by (cases d) auto
  have k: "a + 1 - d = Suc e" using a by simp
  have "(10::rat) ^ a = 10 ^ f * 10 ^ Suc e" using a d by (simp add: power_add)
  then have "10 ^ f * 10 ^ Suc e \<le> \<bar>x\<bar>" using assms(1) by simp
  then have lo: "10 ^ (d - 1) \<le> \<bar>x\<bar> / 10 ^ (a + 1 - d)"
    using d k by (simp add: pos_le_divide_eq)
  have "(10::rat) * 10 ^ a = 10 ^ d * 10 ^ Suc e" using a by (simp add: power_add)
  then have "\<bar>x\<bar> < 10 ^ d * 10 ^ Suc e" using assms(2) by simp
  then have hi: "\<bar>x\<bar> / 10 ^ (a + 1 - d) < 10 ^ d"
    using k by (simp add: pos_divide_less_eq)
  have "a + 1 - d < 400" using assms by simp
  from round_digits_down [OF lo hi this assms(3)] show ?thesis .
qed

lemma shortest_repr_unfold:
  "0 < n \<Longrightarrow> shortest_repr n d x =
     (if double (round_digits 400 d x) = x then round_digits 400 d x
      else shortest_repr (n - 1) (Suc d) x)"
  by (cases n) simp_all

lemmas double_ev =
  double_scaled [where k = 49] double_scaled [where k = 50] double_scaled [where k = 51]
  double_scaled [where k = 52] double_scaled [where k = 53] double_scaled [where k = 54]
  double_scaled [where k = 55] double_scaled [where k = 56] double_scaled [where k = 57]
  double_scaled [where k = 58]

lemmas digits_ev =
  round_digits_places [where j = 0] round_digits_places [where j = 1]
  round_digits_places [where j = 2]
  round_digits_long [where a = 1] round_digits_short [where a = 1]

lemmas float_ev = float_add_def float_sub_def float_mul_def float_div_def to_float_def
  float_repr_def shortest_repr_unfold digits_ev double_ev round_half_even_def Let_def

text \<open>The float literals of the sources are the decimals written.\<close>

lemma float_literals:
  "list_all (\<lambda>v. to_float v = v)
     (map snd FALLBACK_KG_CO2E_PER_USD @
      [DEFAULT_KG_CO2E_PER_USD, 1, 5 / 100, 10 / 100, 15 / 100, 20 / 100, 30 / 100, 40 / 100,
       60 / 100, 80 / 100, 12 / 10, 2, 10, 5])"
  by (simp add: FALLBACK_KG_CO2E_PER_USD_def DEFAULT_KG_CO2E_PER_USD_def float_ev)

section \<open>The multiplier, score by score\<close>

lemma float_sub_5: "float_sub 5 (15 / 100) = 485 / 100"
  by (simp add: float_ev)

lemma multiplier_0: "map_score_to_multiplier 0 = 15 / 100"
  by (simp add: map_score_to_multiplier_def)
lemma multiplier_1: "map_score_to_multiplier 1 = 635 / 1000"
  by (simp add: map_score_to_multiplier_def float_sub_5) (simp add: float_ev)
lemma multiplier_2: "map_score_to_multiplier 2 = 11199999999999999 / 10 ^ 16"
  by (simp add: map_score_to_multiplier_def float_sub_5) (simp add: float_ev)
lemma multiplier_3: "map_score_to_multiplier 3 = 16049999999999998 / 10 ^ 16"
  by (simp add: map_score_to_multiplier_def float_sub_5) (simp add: float_ev)
lemma multiplier_4: "map_score_to_multiplier 4 = 209 / 100"
  by (simp add: map_score_to_multiplier_def float_sub_5) (simp add: float_ev)
lemma multiplier_5: "map_score_to_multiplier 5 = 25749999999999997 / 10 ^ 16"
  by (simp add: map_score_to_multiplier_def float_sub_5) (simp add: float_ev)
lemma multiplier_6: "map_score_to_multiplier 6 = 30599999999999996 / 10 ^ 16"
  by (simp add: map_score_to_multiplier_def float_sub_5) (simp add: float_ev)
lemma multiplier_7: "map_score_to_multiplier 7 = 35449999999999995 / 10 ^ 16"
  by (simp add: map_score_to_multiplier_def float_sub_5) (simp add: float_ev)
lemma multiplier_8: "map_score_to_multiplier 8 = 403 / 100"
  by (simp add: map_score_to_multiplier_def float_sub_5) (simp add: float_ev)
lemma multiplier_9: "map_score_to_multiplier 9 = 4515000000000001 / 10 ^ 15"
  by (simp add: map_score_to_multiplier_def float_sub_5) (simp add: float_ev)
lemma multiplier_10: "map_score_to_multiplier 10 = 5"
  by (simp add: map_score_to_multiplier_def float_sub_5) (simp add: float_ev)

lemma map_score_to_multiplier_clamp:
  "map_score_to_multiplier s = map_score_to_multiplier (max 0 (min 10 s))"
  by (simp add: map_score_to_multiplier_def)

lemma map_score_to_multiplier_printed:
  "map_score_to_multiplier s = printed_multiplier (max 0 (min 10 s))"
proof -
  define k where "k = max 0 (min 10 s)"
  then have "0 \<le> k" "k \<le> 10" by simp_all
  then have "k = 0 \<or> k = 1 \<or> k = 2 \<or> k = 3 \<or> k = 4 \<or> k = 5 \<or> k = 6
    \<or> k = 7 \<or> k = 8 \<or> k = 9 \<or> k = 10" by presburger
  then have "map_score_to_multiplier k = printed_multiplier k"
    by (elim disjE)
      (simp_all add: multiplier_0 multiplier_1 multiplier_2 multiplier_3 multiplier_4
        multiplier_5 multiplier_6 multiplier_7 multiplier_8 multiplier_9 multiplier_10
        printed_multiplier_def)
  then show ?thesis using map_score_to_multiplier_clamp [of s] by (simp add: k_def)
qed



section \<open>Rounding half-even\<close>

lemma round_half_even_bounds:
  "of_int (round_half_even x) \<le> x + 1 / 2 \<and> x - 1 / 2 \<le> of_int (round_half_even x)"
proof -
  define f where "f = \<lfloor>x\<rfloor>"
  have "rat_of_int f \<le> x" "x < rat_of_int f + 1" unfolding f_def by linarith+
  moreover have "round_half_even x =
      (if x - of_int f < 1 / 2 then f else if 1 / 2 < x - of_int f then f + 1
       else if even f then f else f + 1)"
    by (simp add: round_half_even_def Let_def f_def)
  ultimately show ?thesis by (auto split: if_splits)
qed

lemma round_half_even_mono: "x \<le> y \<Longrightarrow> round_half_even x \<le> round_half_even y"
proof (cases "x = y")
  case True then show ?thesis by simp
next
  case False
  assume "x \<le> y"
  with False have "x < y" by simp
  moreover have "rat_of_int (round_half_even x) \<le> x + 1 / 2"
    and "y - 1 / 2 \<le> rat_of_int (round_half_even y)"
    using round_half_even_bounds by blast+
  ultimately have "rat_of_int (round_half_even x) < rat_of_int (round_half_even y) + 1"
    by linarith
  then have "round_half_even x < round_half_even y + 1"
    by (metis of_int_1 of_int_add of_int_less_iff)
  then show ?thesis by simp
qed


lemma round_half_even_of_int [simp]: "round_half_even (of_int k) = k"
  by (simp add: round_half_even_def)




section \<open>Signs of the roundings\<close>

lemma round_half_even_nonneg: "0 \<le> x \<Longrightarrow> 0 \<le> round_half_even x"
  using round_half_even_mono [of 0 x] round_half_even_of_int [of 0] by simp

lemma round_sig53_nonneg: "0 \<le> x \<Longrightarrow> 0 \<le> round_sig53 n x"
  by (induction n arbitrary: x) (auto simp: round_half_even_nonneg)

lemma round_digits_nonneg: "0 \<le> x \<Longrightarrow> 0 \<le> round_digits n d x"
  by (induction n arbitrary: x) (auto simp: round_half_even_nonneg)

lemma shortest_repr_nonneg: "0 \<le> x \<Longrightarrow> 0 \<le> shortest_repr n d x"
  by (induction n arbitrary: d) (auto simp: round_digits_nonneg)

lemma to_float_nonneg: "0 \<le> x \<Longrightarrow> 0 \<le> to_float x"
  by (simp add: to_float_def float_repr_def double_def shortest_repr_nonneg round_sig53_nonneg)

section \<open>Bounds of the binary rounding\<close>



lemma round_half_even_numeral [simp]: "round_half_even (numeral k) = numeral k"
  using round_half_even_of_int [of "numeral k"] by simp









section \<open>Properties of the banding\<close>

text \<open>
  Claim C1. The banding follows the table of inclusive upper bounds
  (at most 0.05 gives 10, 0.10 gives 9, 0.15 gives 8, 0.20 gives 7, 0.30 gives 6,
  0.40 gives 5, 0.60 gives 4, 0.80 gives 3, 1.20 gives 2, 2.00 gives 1, above 2.00 gives 0),
  an absent ratio scores 5, and a larger ratio never scores higher.
\<close>

theorem score_from_co2e_per_dollar_bands:
  "score_from_co2e_per_dollar None = 5 \<and>
   score_from_co2e_per_dollar (Some r) =
     (if r \<le> 5 / 100 then 10 else if r \<le> 10 / 100 then 9
      else if r \<le> 15 / 100 then 8 else if r \<le> 20 / 100 then 7
      else if r \<le> 30 / 100 then 6 else if r \<le> 40 / 100 then 5
      else if r \<le> 60 / 100 then 4 else if r \<le> 80 / 100 then 3
      else if r \<le> 120 / 100 then 2 else if r \<le> 2 then 1 else 0) \<and>
   (\<forall>r1 r2. r1 \<le> r2 \<longrightarrow>
      score_from_co2e_per_dollar (Some r2) \<le> score_from_co2e_per_dollar (Some r1))"
  by (simp add: score_from_co2e_per_dollar_def)

theorem score_from_co2e_per_dollar_bands_witness:
  "score_from_co2e_per_dollar None = 5 \<and>
   score_from_co2e_per_dollar (Some (15 / 100)) = 8 \<and>
   score_from_co2e_per_dollar (Some (16 / 100)) = 7 \<and>
   score_from_co2e_per_dollar (Some 3) \<le> score_from_co2e_per_dollar (Some (16 / 100))"
proof -
  note a = score_from_co2e_per_dollar_bands [of "15 / 100"]
  note b = score_from_co2e_per_dollar_bands [of "16 / 100"]
  have "(16 / 100 :: rat) \<le> 3" by simp
  with a have "score_from_co2e_per_dollar (Some 3) \<le> score_from_co2e_per_dollar (Some (16 / 100))"
    by blast
  moreover from a have "score_from_co2e_per_dollar None = 5"
    and "score_from_co2e_per_dollar (Some (15 / 100)) = 8" by simp_all
  moreover from b have "score_from_co2e_per_dollar (Some (16 / 100)) = 7" by simp
  ultimately show ?thesis by blast
qed

section \<open>Properties of the cashback\<close>

lemma compute_cashback_Some:
  "compute_cashback amt (Some s) =
     quantize (1 / 100) (amt * (1 / 100) * (1 + printed_multiplier (max 0 (min 10 s))))"
  by (simp add: compute_cashback_def Let_def map_score_to_multiplier_printed algebra_simps)








section \<open>Properties of the fallback estimator\<close>

lemma contains_sublist: "contains key s \<longleftrightarrow> sublist key s"
  by (induction s) (auto simp: sublist_Cons_right)

lemma lookup_in_find:
  "lookup_in tbl n =
     (case find (\<lambda>(key, val). sublist key n) tbl of
        Some (key, val) \<Rightarrow> val | None \<Rightarrow> DEFAULT_KG_CO2E_PER_USD)"
  by (induction tbl n rule: lookup_in.induct) (simp_all add: contains_sublist)

lemma fallback_keys_lower:
  "list_all (\<lambda>(key, val). lower key = key) FALLBACK_KG_CO2E_PER_USD"
  by code_simp

lemma find_fallback_lower:
  "find (\<lambda>(key, val). sublist (lower key) n) FALLBACK_KG_CO2E_PER_USD =
   find (\<lambda>(key, val). sublist key n) FALLBACK_KG_CO2E_PER_USD"
  using fallback_keys_lower by (intro find_cong) (auto simp: list_all_iff)

text \<open>
  Claim C5. The fallback estimate is the factor of the first entry of the table whose
  keyword occurs in the name, both in lower case, or the default 0.5 when there is none,
  times the price, with 1.0 for a missing price; the product of decimals is returned as a
  float. A name that contains "organic" gets the factor 0.05 of that first entry, whatever
  else it contains.
\<close>

theorem mock_estimate_first_match:
  "mock_estimate nm pr q =
     to_float
       ((case find (\<lambda>(key, val). sublist (lower key) (lower nm)) FALLBACK_KG_CO2E_PER_USD of
           Some (key, val) \<Rightarrow> val
         | None \<Rightarrow> 5 / 10)
        * (case pr of None \<Rightarrow> 1 | Some p \<Rightarrow> p)) \<and>
   (sublist ''organic'' (lower nm) \<longrightarrow>
      mock_estimate nm pr q = to_float (5 / 100 * (case pr of None \<Rightarrow> 1 | Some p \<Rightarrow> p)))"
proof -
  let ?p = "case pr of None \<Rightarrow> 1 | Some p \<Rightarrow> p"
  have me: "mock_estimate nm pr q = to_float (lookup_kg_co2e_per_usd nm * ?p)"
    by (simp add: mock_estimate_def)
  have eq: "lookup_kg_co2e_per_usd nm =
      (case find (\<lambda>(key, val). sublist (lower key) (lower nm)) FALLBACK_KG_CO2E_PER_USD of
         Some (key, val) \<Rightarrow> val
       | None \<Rightarrow> 5 / 10)"
    by (simp only: lookup_kg_co2e_per_usd_def Let_def lookup_in_find find_fallback_lower
        DEFAULT_KG_CO2E_PER_USD_def)
  have org: "lookup_kg_co2e_per_usd nm = 5 / 100" if "sublist ''organic'' (lower nm)"
    using that
    by (simp add: lookup_kg_co2e_per_usd_def FALLBACK_KG_CO2E_PER_USD_def contains_sublist)
  from eq have "mock_estimate nm pr q =
     to_float
       ((case find (\<lambda>(key, val). sublist (lower key) (lower nm)) FALLBACK_KG_CO2E_PER_USD of
           Some (key, val) \<Rightarrow> val
         | None \<Rightarrow> 5 / 10) * ?p)"
    unfolding me by (rule arg_cong [where f = "\<lambda>v. to_float (v * ?p)"])
  moreover have "mock_estimate nm pr q = to_float (5 / 100 * ?p)"
    if "sublist ''organic'' (lower nm)"
    unfolding me org [OF that] ..
  ultimately show ?thesis by blast
qed

lemma lower_organic_grocery: "lower ''Organic Grocery Bag'' = ''organic grocery bag''"
  by code_simp

lemma sublist_organic_grocery:
  "sublist ''organic'' ''organic grocery bag'' \<and> sublist ''grocery'' ''organic grocery bag''"
  unfolding contains_sublist [symmetric] by code_simp

theorem mock_estimate_first_match_witness:
  "sublist ''organic'' (lower ''Organic Grocery Bag'') \<and>
   sublist ''grocery'' (lower ''Organic Grocery Bag'') \<and>
   mock_estimate ''Organic Grocery Bag'' (Some 2) None = 1 / 10 \<and>
   mock_estimate ''Organic Grocery Bag'' None None = 5 / 100"
proof -
  have "to_float (5 / 100 * 2) = 1 / 10" "to_float (5 / 100 * 1) = 5 / 100"
    by (simp_all add: float_ev)
  with mock_estimate_first_match [of "''Organic Grocery Bag''" "Some 2" None]
    mock_estimate_first_match [of "''Organic Grocery Bag''" None None]
    sublist_organic_grocery
  show ?thesis by (simp add: lower_organic_grocery)
qed

section \<open>Properties of the extraction\<close>

lemma mock_parse_unknown: "mock_parse img = [unknown_item]"
  by (simp add: mock_parse_def unknown_item_def)

lemma parse_response_nonempty: "parse_response img posted = Inr items \<Longrightarrow> items \<noteq> []"
  by (auto simp: parse_response_def mock_parse_def Let_def
      split: sum.splits json.splits if_splits)

lemma parse_receipt_cases:
  "parse_receipt cfg post img =
     (if \<not> use_real_ocr cfg \<or> falsy_key (google_vision_api_key cfg) then [unknown_item]
      else case parse_response img (post (the (google_vision_api_key cfg)) img) of
             Inr items \<Rightarrow> items | Inl e \<Rightarrow> [unknown_item])"
  by (auto simp: parse_receipt_def mock_parse_unknown split: sum.splits)

lemma parse_response_vision_body:
  "200 \<le> status_code resp \<and> status_code resp < 400 \<Longrightarrow> body resp = Some (vision_body s) \<Longrightarrow>
   parse_response img (Inr resp) =
     Inr (if s = [] \<or> parse_lines (splitlines s) = [] then [unknown_item]
          else parse_lines (splitlines s))"
  by (simp add: parse_response_def raise_for_status_def response_json_def vision_body_def
      py_get_def py_first_def truthy_def mock_parse_unknown Let_def)

lemma parse_lines_none:
  "\<forall>l \<in> set ls. re_search (strip l) = None \<Longrightarrow> parse_lines ls = []"
  by (induction ls) (simp_all add: parse_lines_def parse_line_def Let_def)

text \<open>
  Claim C6. The extraction always returns a list, and never an empty one. It returns
  exactly the sentinel item when recognition is off or has no key, when the request
  raises, when the answer has an error status, when its body is not JSON, when any step
  of the real path raises, and when no line of the recognised text ends in a price.
\<close>

theorem parse_receipt_fallback:
  "parse_receipt cfg post img \<noteq> [] \<and>
   (\<not> use_real_ocr cfg \<or> falsy_key (google_vision_api_key cfg) \<longrightarrow>
      parse_receipt cfg post img = [unknown_item]) \<and>
   (post (the (google_vision_api_key cfg)) img = Inl e \<longrightarrow>
      parse_receipt cfg post img = [unknown_item]) \<and>
   (post (the (google_vision_api_key cfg)) img = Inr resp \<and>
    400 \<le> status_code resp \<and> status_code resp < 600 \<longrightarrow>
      parse_receipt cfg post img = [unknown_item]) \<and>
   (post (the (google_vision_api_key cfg)) img = Inr resp \<and> body resp = None \<longrightarrow>
      parse_receipt cfg post img = [unknown_item]) \<and>
   (parse_response img (post (the (google_vision_api_key cfg)) img) = Inl e \<longrightarrow>
      parse_receipt cfg post img = [unknown_item]) \<and>
   (post (the (google_vision_api_key cfg)) img = Inr resp \<and>
    200 \<le> status_code resp \<and> status_code resp < 400 \<and> body resp = Some (vision_body s) \<and>
    (\<forall>l \<in> set (splitlines s). re_search (strip l) = None) \<longrightarrow>
      parse_receipt cfg post img = [unknown_item])"
proof -
  let ?posted = "post (the (google_vision_api_key cfg)) img"
  have nonempty: "parse_receipt cfg post img \<noteq> []"
    using parse_response_nonempty [of img ?posted]
    by (auto simp: parse_receipt_cases split: sum.splits)
  have off: "parse_receipt cfg post img = [unknown_item]"
    if "\<not> use_real_ocr cfg \<or> falsy_key (google_vision_api_key cfg)"
    using that by (auto simp: parse_receipt_cases)
  have failed: "parse_receipt cfg post img = [unknown_item]"
    if "parse_response img ?posted = Inl e'" for e'
    using that by (simp add: parse_receipt_cases)
  have raised: "parse_receipt cfg post img = [unknown_item]" if "?posted = Inl e"
    by (rule failed [of e]) (simp add: that parse_response_def)
  have status: "parse_receipt cfg post img = [unknown_item]"
    if "?posted = Inr resp" "400 \<le> status_code resp" "status_code resp < 600"
    by (rule failed [of HTTPError]) (simp add: that parse_response_def raise_for_status_def)
  have nojson: "parse_receipt cfg post img = [unknown_item]"
    if "?posted = Inr resp" "body resp = None"
  proof (cases "400 \<le> status_code resp \<and> status_code resp < 600")
    case True
    with that(1) show ?thesis by (intro status) simp_all
  next
    case False
    show ?thesis
      by (rule failed [of JSONDecodeError])
        (use False that in \<open>auto simp: parse_response_def raise_for_status_def response_json_def\<close>)
  qed
  have nolines: "parse_receipt cfg post img = [unknown_item]"
    if "?posted = Inr resp" "200 \<le> status_code resp" "status_code resp < 400"
      "body resp = Some (vision_body s)" "\<forall>l \<in> set (splitlines s). re_search (strip l) = None"
  proof -
    have "parse_lines (splitlines s) = []" using that(5) by (rule parse_lines_none)
    then have "parse_response img ?posted = Inr [unknown_item]"
      using that parse_response_vision_body [of resp s img] by simp
    then show ?thesis by (simp add: parse_receipt_cases off)
  qed
  from nonempty off raised status nojson failed [of e] nolines show ?thesis by blast
qed

theorem parse_receipt_fallback_witness:
  "parse_receipt
     \<lparr>use_real_ocr = True, google_vision_api_key = Some ''key'',
       use_real_climatiq = False, climatiq_api_key = None\<rparr>
     (\<lambda>k i. Inr \<lparr>status_code = 200, body = Some (vision_body ''TOTAL\<newline>thank you 12'')\<rparr>)
     ''image'' = [unknown_item] \<and>
   parse_receipt
     \<lparr>use_real_ocr = True, google_vision_api_key = Some ''key'',
       use_real_climatiq = False, climatiq_api_key = None\<rparr>
     (\<lambda>k i. Inl ConnectionError) ''image'' = [unknown_item] \<and>
   parse_receipt
     \<lparr>use_real_ocr = True, google_vision_api_key = Some ''key'',
       use_real_climatiq = False, climatiq_api_key = None\<rparr>
     (\<lambda>k i. Inr \<lparr>status_code = 503, body = None\<rparr>) ''image'' = [unknown_item] \<and>
   parse_receipt
     \<lparr>use_real_ocr = False, google_vision_api_key = Some ''key'',
       use_real_climatiq = False, climatiq_api_key = None\<rparr>
     (\<lambda>k i. Inl ConnectionError) ''image'' = [unknown_item]"
proof -
  let ?on = "\<lparr>use_real_ocr = True, google_vision_api_key = Some ''key'',
       use_real_climatiq = False, climatiq_api_key = None\<rparr>"
  let ?off = "\<lparr>use_real_ocr = False, google_vision_api_key = Some ''key'',
       use_real_climatiq = False, climatiq_api_key = None\<rparr>"
  let ?text = "''TOTAL\<newline>thank you 12''"
  let ?ok = "\<lparr>status_code = 200, body = Some (vision_body ?text)\<rparr>"
  let ?bad = "\<lparr>status_code = 503, body = None\<rparr>"
  have lines: "\<forall>l \<in> set (splitlines ?text). re_search (strip l) = None"
    by code_simp
  have "parse_receipt ?on (\<lambda>k i. Inr ?ok) ''image'' = [unknown_item]"
    using parse_receipt_fallback [of ?on "\<lambda>k i. Inr ?ok" "''image''" ConnectionError ?ok ?text]
      lines by simp
  moreover have "parse_receipt ?on (\<lambda>k i. Inl ConnectionError) ''image'' = [unknown_item]"
    using parse_receipt_fallback
      [of ?on "\<lambda>k i. Inl ConnectionError" "''image''" ConnectionError ?ok ?text]
    by simp
  moreover have "parse_receipt ?on (\<lambda>k i. Inr ?bad) ''image'' = [unknown_item]"
    using parse_receipt_fallback [of ?on "\<lambda>k i. Inr ?bad" "''image''" ConnectionError ?bad ?text]
    by simp
  moreover have "parse_receipt ?off (\<lambda>k i. Inl ConnectionError) ''image'' = [unknown_item]"
    using parse_receipt_fallback
      [of ?off "\<lambda>k i. Inl ConnectionError" "''image''" ConnectionError ?ok ?text]
    by simp
  ultimately show ?thesis by blast
qed

section \<open>Properties of the upload\<close>

lemma process_items_rows:
  "fst (process_items cfg tid its (added, totals)) =
     added @ map (\<lambda>it. fst (score_item cfg tid it)) its"
  by (induction its arbitrary: added totals) (simp_all split: prod.splits)

lemma process_items_totals:
  "snd (process_items cfg tid its (added, totals)) =
     foldl (\<lambda>t it. accumulate t (price it) (snd (score_item cfg tid it))) totals its"
  by (induction its arbitrary: added totals) (simp_all split: prod.splits)

lemma upload_receipt_with_not_found:
  "find (\<lambda>t. tx_id t = tid \<and> user_id t = uid) (transactions d) = None \<Longrightarrow>
   upload_receipt_with parse cfg d uid tid content = (d, Inl NotFound)"
  by (simp add: upload_receipt_with_def)

lemma upload_receipt_with_bad_request:
  "find (\<lambda>t. tx_id t = tid \<and> user_id t = uid) (transactions d) = Some tx \<Longrightarrow>
   parse content = [] \<Longrightarrow>
   upload_receipt_with parse cfg d uid tid content = (d, Inl BadRequest)"
  by (simp add: upload_receipt_with_def)

lemma upload_receipt_with_error:
  "upload_receipt_with parse cfg d uid tid content = (d', Inl e) \<Longrightarrow> d' = d"
  by (auto simp: upload_receipt_with_def Let_def split: option.splits if_splits)

text \<open>What a successful upload stores and answers.\<close>

lemma upload_receipt_with_success:
  assumes "find (\<lambda>t. tx_id t = tid \<and> user_id t = uid) (transactions d) = Some tx"
    and "parse content \<noteq> []"
  shows "upload_receipt_with parse cfg d uid tid content =
    (let rows = filter (\<lambda>r. transaction_id r \<noteq> tid) (receipt_items d)
               @ map (\<lambda>it. fst (score_item cfg tid it)) (parse content);
         totals = foldl (\<lambda>t it. accumulate t (price it) (snd (score_item cfg tid it))) (0, 0)
                    (parse content);
         score = max 0 (min 10 (tx_score_of totals (stored_scores tid rows)));
         cashback = compute_cashback (amount tx) (Some score)
     in (\<lparr>transactions =
            map (\<lambda>t. if tx_id t = tid
                      then tx\<lparr>eco_score := Some score, needs_receipt := False,
                              cashback_usd := Some cashback\<rparr>
                      else t) (transactions d),
          receipt_items = rows\<rparr>,
         Inr \<lparr>res_transaction_id = tid, res_eco_score = score,
              res_cashback_usd = cashback, res_items = length (parse content)\<rparr>))"
proof -
  from assms(1) have "tx_id tx = tid" by (auto simp: find_Some_iff)
  with assms show ?thesis
    by (simp add: upload_receipt_with_def Let_def process_items_rows process_items_totals)
qed

lemma upload_receipt_with_success_shape:
  assumes "find (\<lambda>t. tx_id t = tid \<and> user_id t = uid) (transactions d) = Some tx"
    and "parse content \<noteq> []"
  shows "\<exists>score.
    upload_receipt_with parse cfg d uid tid content =
      (\<lparr>transactions =
          map (\<lambda>t. if tx_id t = tid
                    then tx\<lparr>eco_score := Some score, needs_receipt := False,
                            cashback_usd := Some (compute_cashback (amount tx) (Some score))\<rparr>
                    else t) (transactions d),
        receipt_items = filter (\<lambda>r. transaction_id r \<noteq> tid) (receipt_items d)
               @ map (\<lambda>it. fst (score_item cfg tid it)) (parse content)\<rparr>,
       Inr \<lparr>res_transaction_id = tid, res_eco_score = score,
            res_cashback_usd = compute_cashback (amount tx) (Some score),
            res_items = length (parse content)\<rparr>)
    \<and> 0 \<le> score \<and> score \<le> 10"
  unfolding upload_receipt_with_success
    [where parse = parse and content = content and cfg = cfg, OF assms] Let_def
  by (rule exI, rule conjI, rule refl) simp

lemma upload_receipt_with_success_iff:
  assumes "upload_receipt_with parse cfg d uid tid content = (d', Inr res)"
  shows "\<exists>tx. find (\<lambda>t. tx_id t = tid \<and> user_id t = uid) (transactions d) = Some tx
    \<and> parse content \<noteq> []"
  using assms by (auto simp: upload_receipt_with_def Let_def split: option.splits if_splits)

lemma fst_score_item_tid [simp]: "transaction_id (fst (score_item cfg tid it)) = tid"
  by (simp add: score_item_def Let_def)

lemma upload_receipt_with_items:
  assumes "upload_receipt_with parse cfg d uid tid content = (d', Inr res)"
  shows "filter (\<lambda>r. transaction_id r = tid) (receipt_items d') =
      map (\<lambda>it. fst (score_item cfg tid it)) (parse content)"
    and "filter (\<lambda>r. transaction_id r \<noteq> tid) (receipt_items d') =
      filter (\<lambda>r. transaction_id r \<noteq> tid) (receipt_items d)"
    and "res_items res = length (parse content)"
proof -
  from upload_receipt_with_success_iff [OF assms] obtain tx
    where tx: "find (\<lambda>t. tx_id t = tid \<and> user_id t = uid) (transactions d) = Some tx"
      and items: "parse content \<noteq> []" by blast
  from upload_receipt_with_success [where parse = parse and content = content and cfg = cfg, OF tx items] assms
  have rows: "receipt_items d' = filter (\<lambda>r. transaction_id r \<noteq> tid) (receipt_items d)
               @ map (\<lambda>it. fst (score_item cfg tid it)) (parse content)"
    and n: "res_items res = length (parse content)"
    by (auto simp: Let_def)
  show "filter (\<lambda>r. transaction_id r = tid) (receipt_items d') =
      map (\<lambda>it. fst (score_item cfg tid it)) (parse content)"
    unfolding rows by (simp add: filter_map o_def)
  show "filter (\<lambda>r. transaction_id r \<noteq> tid) (receipt_items d') =
      filter (\<lambda>r. transaction_id r \<noteq> tid) (receipt_items d)"
    unfolding rows by (simp add: filter_map o_def)
  show "res_items res = length (parse content)" by (rule n)
qed


lemma score_range: "0 \<le> score_from_co2e_per_dollar x \<and> score_from_co2e_per_dollar x \<le> 10"
  by (simp add: score_from_co2e_per_dollar_def split: option.splits)

lemma lookup_in_nonneg: "list_all (\<lambda>(key, val). 0 \<le> val) tbl \<Longrightarrow> 0 \<le> lookup_in tbl n"
  by (induction tbl n rule: lookup_in.induct) (simp_all add: DEFAULT_KG_CO2E_PER_USD_def)

lemma lookup_nonneg: "0 \<le> lookup_kg_co2e_per_usd nm"
  unfolding lookup_kg_co2e_per_usd_def Let_def
  by (rule lookup_in_nonneg) (simp add: FALLBACK_KG_CO2E_PER_USD_def)

lemma mock_estimate_nonneg:
  "pr = None \<or> (\<exists>p. pr = Some p \<and> 0 \<le> p) \<Longrightarrow> 0 \<le> mock_estimate nm pr q"
  by (auto simp: mock_estimate_def Let_def lookup_nonneg intro!: to_float_nonneg)

lemma score_item_ranges:
  assumes "price it = None \<or> (\<exists>p. price it = Some p \<and> 0 \<le> p)"
  shows "\<exists>s k. item_score (fst (score_item cfg tid it)) = Some s \<and> 0 \<le> s \<and> s \<le> 10 \<and>
    kg_co2e (fst (score_item cfg tid it)) = Some k \<and> 0 \<le> k"
  using mock_estimate_nonneg [OF assms] score_range
  by (simp add: score_item_def Let_def estimate_item_footprint_def)

lemma parse_line_price:
  "parse_line l = Some it \<Longrightarrow> \<exists>p. price it = Some p \<and> 0 \<le> p"
  by (auto simp: parse_line_def Let_def float_of_numeral_def
      split: if_splits option.splits intro!: to_float_nonneg)

lemma parse_lines_price:
  "it \<in> set (parse_lines ls) \<Longrightarrow> \<exists>p. price it = Some p \<and> 0 \<le> p"
  by (auto simp: parse_lines_def List.map_filter_def dest: parse_line_price)

lemma parse_response_price:
  "parse_response img posted = Inr items \<Longrightarrow> it \<in> set items \<Longrightarrow>
   price it = None \<or> (\<exists>p. price it = Some p \<and> 0 \<le> p)"
  by (auto simp: parse_response_def mock_parse_def Let_def
      split: sum.splits json.splits if_splits dest: parse_lines_price)

lemma parse_receipt_price:
  "it \<in> set (parse_receipt cfg post img) \<Longrightarrow>
   price it = None \<or> (\<exists>p. price it = Some p \<and> 0 \<le> p)"
  using parse_response_price [of img "post (the (google_vision_api_key cfg)) img" _ it]
  by (auto simp: parse_receipt_cases unknown_item_def split: if_splits sum.splits)


section \<open>The example, evaluated\<close>

lemmas string_ev = parse_lines_def parse_line_def strip_def strip_with_def price_tail_def
  is_space_def is_digit_def is_linebreak_def code_def splitlines_def
  digits_value_def float_of_numeral_def List.map_filter_def

lemma example_lines:
  "parse_lines (splitlines ''Coffee $4.50\<newline>Organic kale 0.35'') =
     [\<lparr>name = ''Coffee'', price = Some (9 / 2), qty = None\<rparr>,
      \<lparr>name = ''Organic kale'', price = Some (7 / 20), qty = None\<rparr>]"
  by (simp add: string_ev) (simp add: float_ev)

lemma example_lookup:
  "lookup_kg_co2e_per_usd ''Coffee'' = 25 / 100"
  "lookup_kg_co2e_per_usd ''Organic kale'' = 5 / 100"
  "lookup_kg_co2e_per_usd ''Unknown Item'' = 1 / 2"
  by code_simp+

lemma example_floats:
  "to_float (9 / 8) = 9 / 8"
  "float_div (9 / 8) (9 / 2) = 1 / 4"
  "to_float (7 / 400) = 7 / 400"
  "float_div (7 / 400) (7 / 20) = 5000000000000001 / 10 ^ 17"
  "to_float (1 / 2) = 1 / 2"
  "double 5 = 5"
  by (simp_all add: float_ev)

lemma example_score_item:
  "score_item cfg 1 \<lparr>name = ''Coffee'', price = Some (9 / 2), qty = None\<rparr> =
     (\<lparr>transaction_id = 1, item_name = ''Coffee'', item_price = Some (9 / 2), item_qty = None,
       kg_co2e = Some (9 / 8), item_score = Some 6\<rparr>, 6)"
  "score_item cfg 1 \<lparr>name = ''Organic kale'', price = Some (7 / 20), qty = None\<rparr> =
     (\<lparr>transaction_id = 1, item_name = ''Organic kale'', item_price = Some (7 / 20),
       item_qty = None, kg_co2e = Some (7 / 400), item_score = Some 9\<rparr>, 9)"
  "score_item cfg 1 unknown_item =
     (\<lparr>transaction_id = 1, item_name = ''Unknown Item'', item_price = None,
       item_qty = None, kg_co2e = Some (1 / 2), item_score = Some 5\<rparr>, 5)"
  by (simp_all add: score_item_def estimate_item_footprint_def mock_estimate_def
      example_lookup positive_def score_from_co2e_per_dollar_def example_floats
      unknown_item_def)

lemma example_parse:
  "parse_receipt example_settings example_adapter img =
     [\<lparr>name = ''Coffee'', price = Some (9 / 2), qty = None\<rparr>,
      \<lparr>name = ''Organic kale'', price = Some (7 / 20), qty = None\<rparr>]"
  by (simp add: parse_receipt_cases falsy_key_def parse_response_vision_body example_lines
      example_settings_def example_adapter_def)

lemma example_cashback:
  "compute_cashback (299 / 50) (Some 6) = 6 / 25"
  "compute_cashback (299 / 50) (Some 5) = 21 / 100"
  by (simp_all add: compute_cashback_Some printed_multiplier_def quantize_def
      round_half_even_def Let_def)

lemma example_upload:
  "upload_receipt example_settings example_adapter example_db 7 1 ''image'' =
     (example_db_1,
      Inr \<lparr>res_transaction_id = 1, res_eco_score = 6, res_cashback_usd = 24 / 100,
           res_items = 2\<rparr>)"
  by (simp add: upload_receipt_def upload_receipt_with_def example_parse example_score_item
      Let_def accumulate_def positive_def tx_score_of_def quantize_def py_int_def
      round_half_even_def stored_scores_def example_cashback example_db_def example_db_1_def)

lemma unknown_item_price: "price unknown_item = None"
  by (simp add: unknown_item_def)

lemma example_upload_again:
  "upload_receipt (example_settings\<lparr>use_real_ocr := False\<rparr>) example_adapter example_db_1
     7 1 ''image'' =
     (example_db_2,
      Inr \<lparr>res_transaction_id = 1, res_eco_score = 5, res_cashback_usd = 21 / 100,
           res_items = 1\<rparr>)"
  by (simp add: upload_receipt_def upload_receipt_with_def parse_receipt_cases
      example_settings_def example_score_item
      Let_def accumulate_def positive_def tx_score_of_def int_truediv_def py_int_def
      example_floats List.map_filter_def unknown_item_price
      stored_scores_def example_cashback example_db_1_def example_db_2_def)

section \<open>The claims about the upload\<close>

text \<open>
  Claim C7. The upload fails with NotFound when the user has no transaction of the given
  identifier, and with BadRequest when the extractor returns no item; whenever it fails,
  the stored state is the state before.
\<close>

theorem upload_receipt_failures:
  "((\<forall>t \<in> set (transactions d). \<not> (tx_id t = tid \<and> user_id t = uid)) \<longrightarrow>
      upload_receipt_with parse cfg d uid tid content = (d, Inl NotFound)) \<and>
   ((\<exists>t \<in> set (transactions d). tx_id t = tid \<and> user_id t = uid) \<and> parse content = [] \<longrightarrow>
      upload_receipt_with parse cfg d uid tid content = (d, Inl BadRequest)) \<and>
   (\<forall>d' e. upload_receipt_with parse cfg d uid tid content = (d', Inl e) \<longrightarrow> d' = d)"
proof (intro conjI impI allI)
  assume "\<forall>t \<in> set (transactions d). \<not> (tx_id t = tid \<and> user_id t = uid)"
  then have "find (\<lambda>t. tx_id t = tid \<and> user_id t = uid) (transactions d) = None"
    by (simp add: find_None_iff)
  then show "upload_receipt_with parse cfg d uid tid content = (d, Inl NotFound)"
    by (rule upload_receipt_with_not_found)
next
  assume a: "(\<exists>t \<in> set (transactions d). tx_id t = tid \<and> user_id t = uid) \<and> parse content = []"
  then have "find (\<lambda>t. tx_id t = tid \<and> user_id t = uid) (transactions d) \<noteq> None"
    by (auto simp: find_None_iff)
  then obtain tx where "find (\<lambda>t. tx_id t = tid \<and> user_id t = uid) (transactions d) = Some tx"
    by blast
  with a show "upload_receipt_with parse cfg d uid tid content = (d, Inl BadRequest)"
    by (intro upload_receipt_with_bad_request) simp_all
next
  fix d' e
  assume "upload_receipt_with parse cfg d uid tid content = (d', Inl e)"
  then show "d' = d" by (rule upload_receipt_with_error)
qed

theorem upload_receipt_failures_witness:
  "upload_receipt_with (\<lambda>c. [unknown_item])
     \<lparr>use_real_ocr = False, google_vision_api_key = None,
       use_real_climatiq = False, climatiq_api_key = None\<rparr>
     \<lparr>transactions = [\<lparr>tx_id = 1, user_id = 7, amount = 598 / 100, eco_score = Some 6,
                        needs_receipt = True, cashback_usd = Some (24 / 100)\<rparr>],
       receipt_items = [\<lparr>transaction_id = 1, item_name = ''Tea'', item_price = Some 3,
                         item_qty = None, kg_co2e = Some (3 / 2), item_score = Some 4\<rparr>]\<rparr>
     8 1 ''image'' =
   (\<lparr>transactions = [\<lparr>tx_id = 1, user_id = 7, amount = 598 / 100, eco_score = Some 6,
                        needs_receipt = True, cashback_usd = Some (24 / 100)\<rparr>],
       receipt_items = [\<lparr>transaction_id = 1, item_name = ''Tea'', item_price = Some 3,
                         item_qty = None, kg_co2e = Some (3 / 2), item_score = Some 4\<rparr>]\<rparr>,
    Inl NotFound) \<and>
   upload_receipt_with (\<lambda>c. [])
     \<lparr>use_real_ocr = False, google_vision_api_key = None,
       use_real_climatiq = False, climatiq_api_key = None\<rparr>
     \<lparr>transactions = [\<lparr>tx_id = 1, user_id = 7, amount = 598 / 100, eco_score = Some 6,
                        needs_receipt = True, cashback_usd = Some (24 / 100)\<rparr>],
       receipt_items = [\<lparr>transaction_id = 1, item_name = ''Tea'', item_price = Some 3,
                         item_qty = None, kg_co2e = Some (3 / 2), item_score = Some 4\<rparr>]\<rparr>
     7 1 ''image'' =
   (\<lparr>transactions = [\<lparr>tx_id = 1, user_id = 7, amount = 598 / 100, eco_score = Some 6,
                        needs_receipt = True, cashback_usd = Some (24 / 100)\<rparr>],
       receipt_items = [\<lparr>transaction_id = 1, item_name = ''Tea'', item_price = Some 3,
                         item_qty = None, kg_co2e = Some (3 / 2), item_score = Some 4\<rparr>]\<rparr>,
    Inl BadRequest)"
proof -
  let ?cfg = "\<lparr>use_real_ocr = False, google_vision_api_key = None,
       use_real_climatiq = False, climatiq_api_key = None\<rparr>"
  let ?d = "\<lparr>transactions = [\<lparr>tx_id = 1, user_id = 7, amount = 598 / 100, eco_score = Some 6,
                        needs_receipt = True, cashback_usd = Some (24 / 100)\<rparr>],
       receipt_items = [\<lparr>transaction_id = 1, item_name = ''Tea'', item_price = Some 3,
                         item_qty = None, kg_co2e = Some (3 / 2), item_score = Some 4\<rparr>]\<rparr>"
  from upload_receipt_failures [of ?d 1 8 "\<lambda>c. [unknown_item]" ?cfg "''image''"]
  have "upload_receipt_with (\<lambda>c. [unknown_item]) ?cfg ?d 8 1 ''image'' = (?d, Inl NotFound)"
    by simp
  moreover from upload_receipt_failures [of ?d 1 7 "\<lambda>c. []" ?cfg "''image''"]
  have "upload_receipt_with (\<lambda>c. []) ?cfg ?d 7 1 ''image'' = (?d, Inl BadRequest)"
    by simp
  ultimately show ?thesis by blast
qed

text \<open>
  Claim C8. After a successful upload the stored items of the transaction are the rows
  made from the items of that upload, one for each item and in their order, with the name
  (or "Unknown" for an empty one), the price and the quantity extracted; the items of
  other transactions stay. After two successful uploads for one transaction only the
  rows of the second are stored for it.
\<close>

theorem upload_receipt_replaces_items:
  assumes "upload_receipt_with parse1 cfg1 d uid1 tid content1 = (d1, Inr res1)"
    and "upload_receipt_with parse2 cfg2 d1 uid2 tid content2 = (d2, Inr res2)"
  shows "filter (\<lambda>r. transaction_id r = tid) (receipt_items d1) =
      map (\<lambda>it. fst (score_item cfg1 tid it)) (parse1 content1) \<and>
    filter (\<lambda>r. transaction_id r = tid) (receipt_items d2) =
      map (\<lambda>it. fst (score_item cfg2 tid it)) (parse2 content2) \<and>
    map item_name (filter (\<lambda>r. transaction_id r = tid) (receipt_items d2)) =
      map (\<lambda>it. if name it = [] then ''Unknown'' else name it) (parse2 content2) \<and>
    map item_price (filter (\<lambda>r. transaction_id r = tid) (receipt_items d2)) =
      map price (parse2 content2) \<and>
    map item_qty (filter (\<lambda>r. transaction_id r = tid) (receipt_items d2)) =
      map qty (parse2 content2) \<and>
    res_items res2 = length (parse2 content2) \<and>
    filter (\<lambda>r. transaction_id r \<noteq> tid) (receipt_items d2) =
      filter (\<lambda>r. transaction_id r \<noteq> tid) (receipt_items d)"
proof -
  note first = upload_receipt_with_items [OF assms(1)]
  note second = upload_receipt_with_items [OF assms(2)]
  have "map item_name (map (\<lambda>it. fst (score_item cfg2 tid it)) (parse2 content2)) =
      map (\<lambda>it. if name it = [] then ''Unknown'' else name it) (parse2 content2)"
    and "map item_price (map (\<lambda>it. fst (score_item cfg2 tid it)) (parse2 content2)) =
      map price (parse2 content2)"
    and "map item_qty (map (\<lambda>it. fst (score_item cfg2 tid it)) (parse2 content2)) =
      map qty (parse2 content2)"
    by (simp_all add: score_item_def Let_def o_def)
  with first second show ?thesis by simp
qed


theorem upload_receipt_replaces_items_witness:
  "map item_name (filter (\<lambda>r. transaction_id r = 1) (receipt_items example_db_1)) =
     [''Coffee'', ''Organic kale''] \<and>
   map item_name (filter (\<lambda>r. transaction_id r = 1) (receipt_items example_db_2)) =
     [''Unknown Item''] \<and>
   filter (\<lambda>r. transaction_id r \<noteq> 1) (receipt_items example_db_2) =
     filter (\<lambda>r. transaction_id r \<noteq> 1) (receipt_items example_db)"
proof -
  let ?off = "example_settings\<lparr>use_real_ocr := False\<rparr>"
  note first = example_upload [unfolded upload_receipt_def]
  note second = example_upload_again [unfolded upload_receipt_def]
  note both = upload_receipt_replaces_items [OF first second]
  from both have "filter (\<lambda>r. transaction_id r = 1) (receipt_items example_db_1) =
      map (\<lambda>it. fst (score_item example_settings 1 it))
        (parse_receipt example_settings example_adapter ''image'')"
    by blast
  then have "map item_name (filter (\<lambda>r. transaction_id r = 1) (receipt_items example_db_1)) =
      [''Coffee'', ''Organic kale'']"
    by (simp add: example_parse example_score_item)
  moreover from both
  have "map item_name (filter (\<lambda>r. transaction_id r = 1) (receipt_items example_db_2)) =
      map (\<lambda>it. if name it = [] then ''Unknown'' else name it)
        (parse_receipt ?off example_adapter ''image'')"
    by blast
  then have "map item_name (filter (\<lambda>r. transaction_id r = 1) (receipt_items example_db_2)) =
      [''Unknown Item'']"
    by (simp add: parse_receipt_cases unknown_item_def)
  moreover from both
  have "filter (\<lambda>r. transaction_id r \<noteq> 1) (receipt_items example_db_2) =
      filter (\<lambda>r. transaction_id r \<noteq> 1) (receipt_items example_db)"
    by blast
  ultimately show ?thesis by blast
qed

text \<open>
  Claim C9. After a successful upload every stored item of the transaction has an item
  score from 0 to 10 and a footprint that is present and not negative, and the
  transaction has an eco score from 0 to 10, which is the one answered; for every
  image, every setting and every behaviour of the recognition service.
\<close>

theorem upload_receipt_ranges:
  assumes "upload_receipt cfg post d uid tid content = (d', Inr res)"
  shows "(\<forall>r \<in> set (receipt_items d'). transaction_id r = tid \<longrightarrow>
      (\<exists>s k. item_score r = Some s \<and> 0 \<le> s \<and> s \<le> 10 \<and> kg_co2e r = Some k \<and> 0 \<le> k)) \<and>
    (\<forall>t \<in> set (transactions d'). tx_id t = tid \<longrightarrow>
      (\<exists>s. eco_score t = Some s \<and> 0 \<le> s \<and> s \<le> 10 \<and> res_eco_score res = s))"
proof -
  let ?parse = "parse_receipt cfg post"
  note up = assms [unfolded upload_receipt_def]
  from upload_receipt_with_success_iff [OF up] obtain tx
    where tx: "find (\<lambda>t. tx_id t = tid \<and> user_id t = uid) (transactions d) = Some tx"
      and items: "?parse content \<noteq> []" by blast
  have rows: "\<exists>s k. item_score r = Some s \<and> 0 \<le> s \<and> s \<le> 10 \<and> kg_co2e r = Some k \<and> 0 \<le> k"
    if "r \<in> set (receipt_items d')" "transaction_id r = tid" for r
  proof -
    from that have "r \<in> set (filter (\<lambda>r. transaction_id r = tid) (receipt_items d'))" by simp
    then obtain it where "it \<in> set (?parse content)" "r = fst (score_item cfg tid it)"
      unfolding upload_receipt_with_items(1) [OF up] by auto
    with parse_receipt_price [of it cfg post content] score_item_ranges [of it cfg tid]
    show ?thesis by simp
  qed
  have txs: "\<exists>s. eco_score t = Some s \<and> 0 \<le> s \<and> s \<le> 10 \<and> res_eco_score res = s"
    if "t \<in> set (transactions d')" "tx_id t = tid" for t
  proof -
    from upload_receipt_with_success_shape
      [where parse = ?parse and content = content and cfg = cfg, OF tx items]
    obtain score where "upload_receipt_with ?parse cfg d uid tid content =
      (\<lparr>transactions =
          map (\<lambda>t. if tx_id t = tid
                    then tx\<lparr>eco_score := Some score, needs_receipt := False,
                            cashback_usd := Some (compute_cashback (amount tx) (Some score))\<rparr>
                    else t) (transactions d),
        receipt_items = filter (\<lambda>r. transaction_id r \<noteq> tid) (receipt_items d)
               @ map (\<lambda>it. fst (score_item cfg tid it)) (?parse content)\<rparr>,
       Inr \<lparr>res_transaction_id = tid, res_eco_score = score,
            res_cashback_usd = compute_cashback (amount tx) (Some score),
            res_items = length (?parse content)\<rparr>)"
      and range: "0 \<le> score" "score \<le> 10" by blast
    with up have d': "transactions d' =
          map (\<lambda>t. if tx_id t = tid
                    then tx\<lparr>eco_score := Some score, needs_receipt := False,
                            cashback_usd := Some (compute_cashback (amount tx) (Some score))\<rparr>
                    else t) (transactions d)"
      and res: "res_eco_score res = score" by auto
    from that have "eco_score t = Some score" unfolding d' by auto
    with range res show ?thesis by simp
  qed
  from rows txs show ?thesis by blast
qed

theorem upload_receipt_ranges_witness:
  "map item_score (filter (\<lambda>r. transaction_id r = 1) (receipt_items example_db_1)) =
     [Some 6, Some 9] \<and>
   map kg_co2e (filter (\<lambda>r. transaction_id r = 1) (receipt_items example_db_1)) =
     [Some (9 / 8), Some (7 / 400)] \<and>
   map eco_score (transactions example_db_1) = [Some 6]"
  using upload_receipt_ranges [OF example_upload]
  by (simp add: example_db_1_def)



section \<open>Properties of the aggregation\<close>








lemma item_score_score_item [simp]:
  "item_score (fst (score_item cfg tid it)) = Some (snd (score_item cfg tid it))"
  by (simp add: score_item_def Let_def)





end
